theory Spec2Isabelle
  imports Main "HOL-Library.Sublist"
begin

section \<open>Python exceptions\<close>

text \<open>
  Every raise of the source is a value.  Only the classes the source raises or catches by
  name are told apart; any other exception class is \<open>OtherError\<close>.
\<close>

datatype exn =
    AttributeError string
  | NameError string
  | TankError string
  | OtherError string

section \<open>Scene event watcher (engine.py)\<close>

subsection \<open>Entry points, wrappers and the host object\<close>

text \<open>
  The two static methods of \<open>SceneEventWatcher\<close> that \<open>start_watching\<close> hands to
  \<open>wrapped\<close>.
\<close>

datatype callback = SceneEventCallback | ClarisseExitingCallback

text \<open>
  A callable stored in an attribute of \<open>ix.application\<close>: a function of the host itself,
  or the closure \<open>wrapper\<close> built by \<open>wrapped(function, watcher, post_callback, pre_callback)\<close>.
  The closure keeps the four arguments; \<open>original\<close> is its \<open>_original\<close> attribute.  A
  watcher is referred to by its object identity, a natural number.
\<close>

datatype fn =
    Native string
  | Wrapper (original: fn) (owner: nat) (post_callback: "callback option")
      (pre_callback: "callback option")

definition wrapped :: "fn \<Rightarrow> nat \<Rightarrow> callback option \<Rightarrow> callback option \<Rightarrow> fn" where
  "wrapped function watcher post pre = Wrapper function watcher post pre"

definition SCENE_EVENT_NAMES :: "string list" where
  "SCENE_EVENT_NAMES =
     [''new_project'', ''clear_project'', ''import_project'', ''load_project'',
      ''save_project'', ''load_startup_scene'']"

definition SCENE_QUIT_EVENT_NAME :: string where
  "SCENE_QUIT_EVENT_NAME = ''quit''"

definition watched_names :: "string list" where
  "watched_names = SCENE_EVENT_NAMES @ [SCENE_QUIT_EVENT_NAME]"

text \<open>
  What can be observed from outside, in the order it happens.  Each entry carries a
  snapshot, taken at that moment, of the watched attribute names that hold a wrapper:
  a call of a host function with its arguments, a call of the user callback of a watcher,
  and a traceback printed by the \<open>except\<close> branch of the registration loop.
\<close>

datatype 'v event =
    NativeCall string 'v "string list"
  | UserCallback nat "string list"
  | TracebackPrinted exn

text \<open>
  The three private fields of a watcher.  The user callback \<open>cb_fn\<close> is opaque code:
  the model keeps its outcome only (\<open>None\<close>: it returns, \<open>Some e\<close>: it raises \<open>e\<close>)
  and records each call of it.
\<close>

record watcher =
  cb_fn :: "exn option"
  run_once :: bool
  wrapped_fns :: "string \<rightharpoonup> fn"

text \<open>
  The attributes of \<open>ix.application\<close>, the watcher objects by identity, and the
  observations made so far.
\<close>

record 'v world =
  application :: "string \<rightharpoonup> fn"
  watchers :: "nat \<Rightarrow> watcher"
  trace :: "'v event list"

fun wrapped_by :: "nat \<Rightarrow> fn \<Rightarrow> bool" where
  "wrapped_by w (Native n) = False"
| "wrapped_by w (Wrapper f w' post pre) = (w' = w \<or> wrapped_by w f)"

fun wrap_count :: "nat \<Rightarrow> fn \<Rightarrow> nat" where
  "wrap_count w (Native n) = 0"
| "wrap_count w (Wrapper f w' post pre) = (if w' = w then 1 else 0) + wrap_count w f"

fun is_wrapper :: "fn option \<Rightarrow> bool" where
  "is_wrapper (Some (Wrapper f w post pre)) = True"
| "is_wrapper _ = False"

definition patched :: "'v world \<Rightarrow> string list" where
  "patched s = filter (\<lambda>n. is_wrapper (application s n)) watched_names"

definition patched_by :: "nat \<Rightarrow> 'v world \<Rightarrow> string list" where
  "patched_by w s =
     filter (\<lambda>n. case application s n of None \<Rightarrow> False | Some f \<Rightarrow> wrapped_by w f)
       watched_names"

subsection \<open>stop_watching and start_watching\<close>

text \<open>
  \<open>stop_watching\<close>: every name of \<open>__wrapped_fns\<close> gets the \<open>_original\<close> of the
  stored wrapper back, then the table is emptied.  The keys of a dict are distinct, so
  the order of the loop does not matter.
\<close>

definition stop_watching :: "nat \<Rightarrow> 'v world \<Rightarrow> 'v world" where
  "stop_watching w s =
     s\<lparr>application :=
         (\<lambda>n. case wrapped_fns (watchers s w) n of
                 None \<Rightarrow> application s n
               | Some event_fn \<Rightarrow> Some (original event_fn)),
       watchers := (watchers s)(w := (watchers s w)\<lparr>wrapped_fns := Map.empty\<rparr>)\<rparr>"

text \<open>
  One round of the registration loop.  \<open>getattr\<close> raises \<open>AttributeError\<close> when the host
  has no such attribute; the \<open>except Exception\<close> branch prints the traceback and goes on
  to the next name.  Setting an attribute of the host object succeeds; the debug line of
  a registration is not part of the model.
\<close>

definition register_event :: "nat \<Rightarrow> string \<Rightarrow> 'v world \<Rightarrow> 'v world" where
  "register_event w event_name s =
     (case application s event_name of
        None \<Rightarrow> s\<lparr>trace := trace s @ [TracebackPrinted (AttributeError event_name)]\<rparr>
      | Some f \<Rightarrow>
          (let event_fn = wrapped f w (Some SceneEventCallback) None in
           s\<lparr>application := (application s)(event_name \<mapsto> event_fn),
             watchers := (watchers s)
               (w := (watchers s w)
                  \<lparr>wrapped_fns := (wrapped_fns (watchers s w))(event_name \<mapsto> event_fn)\<rparr>)\<rparr>))"

text \<open>
  The quit entry point is patched after the loop, outside any \<open>try\<close>: a missing attribute
  raises out of \<open>start_watching\<close>.
\<close>

definition register_quit :: "nat \<Rightarrow> 'v world \<Rightarrow> exn option \<times> 'v world" where
  "register_quit w s =
     (case application s SCENE_QUIT_EVENT_NAME of
        None \<Rightarrow> (Some (AttributeError SCENE_QUIT_EVENT_NAME), s)
      | Some f \<Rightarrow>
          (let event_fn = wrapped f w None (Some ClarisseExitingCallback) in
           (None,
            s\<lparr>application := (application s)(SCENE_QUIT_EVENT_NAME \<mapsto> event_fn),
              watchers := (watchers s)
                (w := (watchers s w)
                   \<lparr>wrapped_fns :=
                      (wrapped_fns (watchers s w))(SCENE_QUIT_EVENT_NAME \<mapsto> event_fn)\<rparr>)\<rparr>)))"

definition start_watching :: "nat \<Rightarrow> 'v world \<Rightarrow> exn option \<times> 'v world" where
  "start_watching w s =
     register_quit w (fold (register_event w) SCENE_EVENT_NAMES (stop_watching w s))"

text \<open>The constructor: the three fields are set, then \<open>start_watching\<close> runs.\<close>

definition SceneEventWatcher_init ::
  "nat \<Rightarrow> exn option \<Rightarrow> bool \<Rightarrow> 'v world \<Rightarrow> exn option \<times> 'v world" where
  "SceneEventWatcher_init w cb once s =
     start_watching w
       (s\<lparr>watchers := (watchers s)
            (w := \<lparr>cb_fn = cb, run_once = once, wrapped_fns = Map.empty\<rparr>)\<rparr>)"

subsection \<open>Calling an entry point\<close>

text \<open>
  The two callbacks of the watcher class.  \<open>__scene_event_callback\<close> stops the watcher
  first when \<open>run_once\<close> is set, then calls the user callback.
  \<open>__clarisse_exiting_callback\<close> stops the watcher.
\<close>

fun run_callback :: "callback \<Rightarrow> nat \<Rightarrow> 'v world \<Rightarrow> exn option \<times> 'v world" where
  "run_callback SceneEventCallback w s =
     (let s1 = (if run_once (watchers s w) then stop_watching w s else s) in
      (cb_fn (watchers s1 w), s1\<lparr>trace := trace s1 @ [UserCallback w (patched_by w s1)]\<rparr>))"
| "run_callback ClarisseExitingCallback w s = (None, stop_watching w s)"

text \<open>
  A function of the host: it is called with the arguments, and returns or raises as the
  host decides (\<open>host\<close> is that decision).
\<close>

definition native_call ::
  "(string \<Rightarrow> 'v \<Rightarrow> exn + 'v) \<Rightarrow> string \<Rightarrow> 'v \<Rightarrow> 'v world \<Rightarrow> (exn + 'v) \<times> 'v world" where
  "native_call host n args s =
     (host n args, s\<lparr>trace := trace s @ [NativeCall n args (patched s)]\<rparr>)"

fun opt_callback ::
  "('c \<Rightarrow> nat \<Rightarrow> 's \<Rightarrow> exn option \<times> 's) \<Rightarrow> 'c option \<Rightarrow> nat \<Rightarrow> 's \<Rightarrow> exn option \<times> 's" where
  "opt_callback cb None w s = (None, s)"
| "opt_callback cb (Some c) w s = cb c w s"

text \<open>
  The body of \<open>wrapper\<close>: pre-callback if there is one, the wrapped function with the
  same arguments, post-callback if there is one, and the result of the function.  The
  \<open>except: raise\<close> re-raises whatever was raised, so the first exception ends the call.
  \<open>cb\<close> runs a callback, \<open>run_native\<close> runs a function of the host.
\<close>

fun call ::
  "(callback \<Rightarrow> nat \<Rightarrow> 's \<Rightarrow> exn option \<times> 's) \<Rightarrow> (string \<Rightarrow> 'v \<Rightarrow> 's \<Rightarrow> (exn + 'v) \<times> 's) \<Rightarrow>
   fn \<Rightarrow> 'v \<Rightarrow> 's \<Rightarrow> (exn + 'v) \<times> 's" where
  "call cb run_native (Native n) args s = run_native n args s"
| "call cb run_native (Wrapper function watcher post pre) args s =
     (case opt_callback cb pre watcher s of
        (Some e, s1) \<Rightarrow> (Inl e, s1)
      | (None, s1) \<Rightarrow>
          (case call cb run_native function args s1 of
             (Inl e, s2) \<Rightarrow> (Inl e, s2)
           | (Inr result, s2) \<Rightarrow>
               (case opt_callback cb post watcher s2 of
                  (Some e, s3) \<Rightarrow> (Inl e, s3)
                | (None, s3) \<Rightarrow> (Inr result, s3))))"

text \<open>
  The host runs a lifecycle operation: it looks the attribute up on \<open>ix.application\<close>
  and calls what it finds.
\<close>

definition fire ::
  "(string \<Rightarrow> 'v \<Rightarrow> exn + 'v) \<Rightarrow> string \<Rightarrow> 'v \<Rightarrow> 'v world \<Rightarrow> (exn + 'v) \<times> 'v world" where
  "fire host n args s =
     (case application s n of
        None \<Rightarrow> (Inl (AttributeError n), s)
      | Some f \<Rightarrow> call run_callback (native_call host) f args s)"

fun run_events ::
  "(string \<Rightarrow> 'v \<Rightarrow> exn + 'v) \<Rightarrow> (string \<times> 'v) list \<Rightarrow> 'v world \<Rightarrow> 'v world" where
  "run_events host [] s = s"
| "run_events host ((n, args) # evs) s = run_events host evs (snd (fire host n args s))"

text \<open>
  A sequence of \<open>start_watching()\<close> and \<open>stop_watching()\<close> calls on one watcher, by a
  caller that goes on after an exception.
\<close>

datatype watch_op = Start | Stop

fun run_op :: "nat \<Rightarrow> watch_op \<Rightarrow> 'v world \<Rightarrow> 'v world" where
  "run_op w Start s = snd (start_watching w s)"
| "run_op w Stop s = stop_watching w s"

definition run_ops :: "nat \<Rightarrow> watch_op list \<Rightarrow> 'v world \<Rightarrow> 'v world" where
  "run_ops w ops s = fold (run_op w) ops s"

text \<open>A host that exposes exactly the names in \<open>A\<close>, no watcher built yet.\<close>

definition natives :: "string set \<Rightarrow> (string \<rightharpoonup> fn)" where
  "natives A = (\<lambda>n. if n \<in> A then Some (Native n) else None)"

definition fresh_host :: "string set \<Rightarrow> 'v world" where
  "fresh_host A =
     \<lparr>application = natives A,
      watchers = (\<lambda>w. \<lparr>cb_fn = None, run_once = False, wrapped_fns = Map.empty\<rparr>),
      trace = []\<rparr>"

text \<open>
  What one \<open>start_watching\<close> of watcher \<open>w\<close> leaves on a host whose attributes were
  \<open>a\<close>: a wrapper with a post-callback on each scene event the host exposes, a wrapper
  with a pre-callback on quit, everything else as it was.
\<close>

definition installed :: "nat \<Rightarrow> (string \<rightharpoonup> fn) \<Rightarrow> (string \<rightharpoonup> fn)" where
  "installed w a n =
     (if n \<in> set SCENE_EVENT_NAMES
      then map_option (\<lambda>f. Wrapper f w (Some SceneEventCallback) None) (a n)
      else if n = SCENE_QUIT_EVENT_NAME
      then map_option (\<lambda>f. Wrapper f w None (Some ClarisseExitingCallback)) (a n)
      else a n)"

definition installed_table :: "nat \<Rightarrow> (string \<rightharpoonup> fn) \<Rightarrow> (string \<rightharpoonup> fn)" where
  "installed_table w a n = (if n \<in> set watched_names then installed w a n else None)"

text \<open>
  The two states a watcher \<open>w\<close> is in between calls, over a host whose own
  attributes are \<open>a\<close>: nothing patched and an empty table, or everything
  \<open>start_watching\<close> installs in place and in the table.
\<close>

definition clean_at :: "nat \<Rightarrow> (string \<rightharpoonup> fn) \<Rightarrow> 'v world \<Rightarrow> bool" where
  "clean_at w a s = (application s = a \<and> wrapped_fns (watchers s w) = Map.empty)"

definition watching_at :: "nat \<Rightarrow> (string \<rightharpoonup> fn) \<Rightarrow> 'v world \<Rightarrow> bool" where
  "watching_at w a s =
     (application s = installed w a \<and> wrapped_fns (watchers s w) = installed_table w a)"

text \<open>The snapshots of the calls of the user callback of watcher \<open>w\<close>, in order.\<close>

fun user_calls :: "nat \<Rightarrow> 'v event list \<Rightarrow> string list list" where
  "user_calls w [] = []"
| "user_calls w (UserCallback w' p # tr) = (if w' = w then p # user_calls w tr else user_calls w tr)"
| "user_calls w (e # tr) = user_calls w tr"

text \<open>
  What holds between events for a watcher built with \<open>run_once=True\<close>: it still
  watches and its callback has not run, or it has stopped and its callback has run at most
  once, with nothing patched at that moment.
\<close>

definition once_inv :: "nat \<Rightarrow> string set \<Rightarrow> 'v world \<Rightarrow> bool" where
  "once_inv w A s =
     (run_once (watchers s w) \<and>
      ((watching_at w (natives A) s \<and> user_calls w (trace s) = []) \<or>
       (clean_at w (natives A) s \<and>
        (user_calls w (trace s) = [] \<or> user_calls w (trace s) = [[]]))))"

section \<open>Context refresh (engine.py: refresh_engine and the disabled menu)\<close>

text \<open>
  What the refresh does to the world outside engine.py, in order: calls into the toolkit,
  the menu generator, and what \<open>display_error\<close> prints and logs.
\<close>

datatype 'c action =
    TankFromPath string
  | ContextFromPath string 'c
  | ContextFromEntityDictionary 'c
  | ChangeContext 'c
  | MenuGeneratorCreateMenu string
  | Printed string
  | LogError string

text \<open>The entries of \<open>ix.shotgun.menu_callbacks\<close>.\<close>

datatype menu_callback = SgtkDisabledMessage

text \<open>
  A raised exception as \<open>sys.exc_info()\<close> gives it: the exception and the frames
  that \<open>traceback.format_tb\<close> makes of its traceback.
\<close>

type_synonym raised = "exn \<times> string list"

text \<open>
  The toolkit and \<open>os.path\<close>, which are not part of the repository, as functions that
  return or raise.  \<open>context_from_entity_dictionary\<close> gets the engine's toolkit instance
  and the engine's context, whose project entity the source passes on.
\<close>

record ('c, 'k) toolkit =
  abspath :: "string \<Rightarrow> string"
  tank_from_path :: "string \<Rightarrow> raised + 'k"
  context_from_path :: "'k \<Rightarrow> string \<Rightarrow> 'c \<Rightarrow> raised + 'c"
  context_from_entity_dictionary :: "'k \<Rightarrow> 'c \<Rightarrow> raised + 'c"

record ('c, 'k) engine =
  engine_context :: 'c
  sgtk :: 'k
  engine_menu_name :: string

text \<open>
  The session: the toolkit's current engine, the file name the host reports, whether the
  host runs with a user interface, the command paths of the host's main menu with the
  scripts attached to them, the callback table, the clock and the actions so far.
\<close>

record ('c, 'k) session =
  current_engine :: "('c, 'k) engine option"
  current_project_filename :: string
  is_gui_application :: bool
  main_menu :: "string list"
  menu_scripts :: "string \<rightharpoonup> string"
  menu_callbacks :: "string \<rightharpoonup> menu_callback"
  asctime :: string
  actions :: "'c action list"

fun is_TankError :: "exn \<Rightarrow> bool" where
  "is_TankError (TankError m) = True"
| "is_TankError _ = False"

fun exc_type :: "exn \<Rightarrow> string" where
  "exc_type (AttributeError m) = ''AttributeError''"
| "exc_type (NameError m) = ''NameError''"
| "exc_type (TankError m) = ''TankError''"
| "exc_type (OtherError m) = ''Exception''"

fun exc_value :: "exn \<Rightarrow> string" where
  "exc_value (AttributeError m) = m"
| "exc_value (NameError m) = m"
| "exc_value (TankError m) = m"
| "exc_value (OtherError m) = m"

text \<open>\<open>"\n".join(lines)\<close>\<close>

fun join_lines :: "string list \<Rightarrow> string" where
  "join_lines [] = []"
| "join_lines [l] = l"
| "join_lines (l # ls) = l @ [CHR 0x0A] @ join_lines ls"

text \<open>\<open>display_error\<close>: the stamped line is printed and sent to the host's error log.\<close>

definition display_error :: "string \<Rightarrow> ('c, 'k) session \<Rightarrow> ('c, 'k) session" where
  "display_error msg s =
     (let line = asctime s @ '' - Shotgun Error | Clarisse engine | '' @ msg @ '' '' in
      s\<lparr>actions := actions s @ [Printed line, LogError line]\<rparr>)"

text \<open>
  \<open>get_sgtk_root_menu\<close>: the root item of the menu is looked up in the main menu and
  added when it is not there.
\<close>

definition get_sgtk_root_menu :: "string \<Rightarrow> ('c, 'k) session \<Rightarrow> ('c, 'k) session" where
  "get_sgtk_root_menu menu_name s =
     (if menu_name @ ''>'' \<in> set (main_menu s) then s
      else s\<lparr>main_menu := main_menu s @ [menu_name @ ''>'']\<rparr>)"

text \<open>
  \<open>clear_sgtk_menu\<close>: nothing without a user interface; otherwise the host removes
  every command under the root path and the callback table is emptied.
\<close>

definition clear_sgtk_menu :: "string \<Rightarrow> ('c, 'k) session \<Rightarrow> ('c, 'k) session" where
  "clear_sgtk_menu menu_name s =
     (if \<not> is_gui_application s then s
      else
        (let s1 = get_sgtk_root_menu menu_name s in
         s1\<lparr>main_menu := filter (\<lambda>item. \<not> prefix (menu_name @ ''>'') item) (main_menu s1),
            menu_scripts := (\<lambda>item. if prefix (menu_name @ ''>'') item then None
                                      else menu_scripts s1 item),
            menu_callbacks := Map.empty\<rparr>))"

definition remove_sgtk_disabled_menu :: "string \<Rightarrow> ('c, 'k) session \<Rightarrow> ('c, 'k) session" where
  "remove_sgtk_disabled_menu menu_name s = clear_sgtk_menu menu_name s"

definition disabled_item :: "string \<Rightarrow> string" where
  "disabled_item menu_name = menu_name @ ''>Sgtk is disabled.''"

text \<open>
  \<open>create_sgtk_disabled_menu\<close>: nothing without a user interface; otherwise the
  placeholder command is added under the root, with its callback and its script.
\<close>

definition create_sgtk_disabled_menu :: "string \<Rightarrow> ('c, 'k) session \<Rightarrow> ('c, 'k) session" where
  "create_sgtk_disabled_menu menu_name s =
     (if \<not> is_gui_application s then s
      else
        (let s1 = get_sgtk_root_menu menu_name s;
             menu_item = disabled_item menu_name in
         s1\<lparr>main_menu := main_menu s1 @ [menu_item],
            menu_scripts := (menu_scripts s1)
              (menu_item \<mapsto> ''ix.shotgun.menu_callbacks['' @ menu_item @ '']''),
            menu_callbacks := (menu_callbacks s1)(menu_item \<mapsto> SgtkDisabledMessage)\<rparr>))"

text \<open>
  \<open>ClarisseEngine.create_shotgun_menu\<close>: with a user interface the root menu is fetched
  under the engine's own menu name and the menu generator builds the menu.  The generator
  is not among the sources; its run is recorded.
\<close>

definition create_shotgun_menu :: "('c, 'k) engine \<Rightarrow> ('c, 'k) session \<Rightarrow> bool \<times> ('c, 'k) session" where
  "create_shotgun_menu eng s =
     (if is_gui_application s
      then (let s1 = get_sgtk_root_menu (engine_menu_name eng) s in
            (True, s1\<lparr>actions := actions s1 @ [MenuGeneratorCreateMenu (engine_menu_name eng)]\<rparr>))
      else (False, s))"

text \<open>
  \<open>Engine.change_context\<close> belongs to the toolkit: the call is recorded and the engine
  holds the new context afterwards.
\<close>

definition change_context :: "'c \<Rightarrow> ('c, 'k) session \<Rightarrow> ('c, 'k) session" where
  "change_context new_context s =
     (case current_engine s of
        None \<Rightarrow> s
      | Some eng \<Rightarrow>
          s\<lparr>current_engine := Some (eng\<lparr>engine_context := new_context\<rparr>),
            actions := actions s @ [ChangeContext new_context]\<rparr>)"

text \<open>The \<open>try\<close> block: \<open>tank_from_path\<close>, then \<open>context_from_path\<close> on its result.\<close>

definition resolve_from_path ::
  "('c, 'k) toolkit \<Rightarrow> 'c \<Rightarrow> string \<Rightarrow> ('c, 'k) session \<Rightarrow> (raised + 'c) \<times> ('c, 'k) session" where
  "resolve_from_path tk prev_context new_path s =
     (case tank_from_path tk new_path of
        Inl r \<Rightarrow> (Inl r, s\<lparr>actions := actions s @ [TankFromPath new_path]\<rparr>)
      | Inr k \<Rightarrow>
          (context_from_path tk k new_path prev_context,
           s\<lparr>actions := actions s @ [TankFromPath new_path, ContextFromPath new_path prev_context]\<rparr>))"

text \<open>The first \<open>except\<close> branch: the context of the engine's own project.\<close>

definition resolve_from_project ::
  "('c, 'k) toolkit \<Rightarrow> ('c, 'k) engine \<Rightarrow> ('c, 'k) session \<Rightarrow> (raised + 'c) \<times> ('c, 'k) session" where
  "resolve_from_project tk eng s =
     (context_from_entity_dictionary tk (sgtk eng) (engine_context eng),
      s\<lparr>actions := actions s @ [ContextFromEntityDictionary (engine_context eng)]\<rparr>)"

definition cannot_start_message :: "raised \<Rightarrow> string" where
  "cannot_start_message r =
     ''Shotgun Clarisse Engine cannot be started:.'' @ [CHR 0x0A] @
     ''Please contact you technical support team for more '' @
     ''information.'' @ [CHR 0x0A, CHR 0x0A] @
     ''Exception: '' @ exc_type (fst r) @ '' - '' @ exc_value (fst r) @ [CHR 0x0A] @
     ''Traceback (most recent call last):'' @ [CHR 0x0A] @
     join_lines (snd r)"

text \<open>
  The end of \<open>refresh_engine\<close>, reached with a resolved context: the disabled menu is
  removed, the menu is created, and the context is changed when it differs from the one
  of \<open>tank.platform.current_engine()\<close>, which is fetched again.
\<close>

definition refresh_resolved ::
  "string \<Rightarrow> ('c, 'k) engine \<Rightarrow> 'c \<Rightarrow> ('c, 'k) session \<Rightarrow> exn option \<times> ('c, 'k) session" where
  "refresh_resolved menu_name eng ctx s =
     (let s1 = remove_sgtk_disabled_menu menu_name s;
          s2 = snd (create_shotgun_menu eng s1) in
      case current_engine s2 of
        None \<Rightarrow> (Some (AttributeError ''context''), s2)
      | Some cur \<Rightarrow>
          if ctx \<noteq> engine_context cur then (None, change_context ctx s2) else (None, s2))"

text \<open>
  \<open>refresh_engine(engine_name, prev_context, menu_name)\<close>.  An exception that is not
  a \<open>TankError\<close> is caught by neither \<open>except\<close> and leaves the function.
\<close>

definition refresh_engine ::
  "('c, 'k) toolkit \<Rightarrow> string \<Rightarrow> 'c \<Rightarrow> string \<Rightarrow> ('c, 'k) session \<Rightarrow>
   exn option \<times> ('c, 'k) session" where
  "refresh_engine tk engine_name prev_context menu_name s =
     (case current_engine s of
        None \<Rightarrow> (None, s)
      | Some eng \<Rightarrow>
          (let scene_name = current_project_filename s in
           if scene_name = []
           then (if prev_context \<noteq> engine_context eng
                 then (None, change_context prev_context s)
                 else (None, s))
           else
             (let new_path = abspath tk scene_name in
              case resolve_from_path tk prev_context new_path s of
                (Inr ctx, s1) \<Rightarrow> refresh_resolved menu_name eng ctx s1
              | (Inl r, s1) \<Rightarrow>
                  if \<not> is_TankError (fst r) then (Some (fst r), s1)
                  else
                    (case resolve_from_project tk eng s1 of
                       (Inr ctx, s2) \<Rightarrow> refresh_resolved menu_name eng ctx s2
                     | (Inl r2, s2) \<Rightarrow>
                         if \<not> is_TankError (fst r2) then (Some (fst r2), s2)
                         else
                           (None,
                            display_error (cannot_start_message r2)
                              (create_sgtk_disabled_menu menu_name s2))))))"

text \<open>
  A session to run the refresh on: one engine in context \<open>shot_010\<close> with the menu
  name \<open>Shotgun\<close>, an empty main menu, with or without a user interface, on a given
  file name.  And two toolkits: one that knows no path and no project, one that resolves
  every path to \<open>shot_010\<close>.
\<close>

definition example_engine :: "(string, unit) engine" where
  "example_engine = \<lparr>engine_context = ''shot_010'', sgtk = (), engine_menu_name = ''Shotgun''\<rparr>"

definition example_session :: "bool \<Rightarrow> string \<Rightarrow> (string, unit) session" where
  "example_session gui scene_name =
     \<lparr>current_engine = Some example_engine,
      current_project_filename = scene_name,
      is_gui_application = gui,
      main_menu = [],
      menu_scripts = Map.empty,
      menu_callbacks = Map.empty,
      asctime = ''Tue Nov  3 12:00:00 2026'',
      actions = []\<rparr>"

definition unknown_path_toolkit :: "(string, unit) toolkit" where
  "unknown_path_toolkit =
     \<lparr>abspath = (\<lambda>p. p),
      tank_from_path = (\<lambda>p. Inl (TankError ''path is not in a project'', [''frame 1''])),
      context_from_path = (\<lambda>k p c. Inr c),
      context_from_entity_dictionary =
        (\<lambda>k c. Inl (TankError ''no project entity'', [''frame 1'', ''frame 2'']))\<rparr>"

definition known_path_toolkit :: "(string, unit) toolkit" where
  "known_path_toolkit =
     \<lparr>abspath = (\<lambda>p. p),
      tank_from_path = (\<lambda>p. Inr ()),
      context_from_path = (\<lambda>k p c. Inr ''shot_010''),
      context_from_entity_dictionary = (\<lambda>k c. Inr c)\<rparr>"

section \<open>The event pump (python/tk_clarisse/pyside_clarisse.py)\<close>

text \<open>
  A helper object: its \<open>app\<close> attribute (\<open>None\<close> for an application object that is
  \<open>None\<close>), and the entry \<open>_helper\<close> of its own attribute dictionary: \<open>None\<close> while
  the object has no such attribute of its own, \<open>Some v\<close> once \<open>self._helper = v\<close> ran.
\<close>

datatype qt_call = ProcessEvents nat | SendPostedEvents nat

record helper =
  app :: "nat option"
  own_helper :: "nat option option"

text \<open>
  \<open>cls_helper\<close> is the class attribute \<open>PySideAppClarisseHelper._helper\<close>, a
  reference to a helper object or \<open>None\<close>; \<open>heap\<close> holds the helper objects;
  \<open>event_loop_single\<close> is what \<open>ix.application.add_to_event_loop_single\<close> has
  queued for the next idle tick, each entry the bound \<open>process_events\<close> of a helper;
  \<open>closingDown\<close> and \<open>windows_visible\<close> are what Qt answers.
\<close>

record pump =
  cls_helper :: "nat option"
  heap :: "nat \<rightharpoonup> helper"
  event_loop_single :: "nat list"
  closingDown :: "nat \<Rightarrow> bool"
  windows_visible :: bool
  qt_calls :: "qt_call list"

text \<open>
  \<open>exec_(cls, app)\<close>: when the class holds no helper, one is built at the fresh
  address \<open>new\<close>, kept in the class attribute and queued once.
\<close>

definition helper_exec :: "nat \<Rightarrow> nat option \<Rightarrow> pump \<Rightarrow> pump" where
  "helper_exec new application_object p =
     (case cls_helper p of
        Some h \<Rightarrow> p
      | None \<Rightarrow>
          p\<lparr>cls_helper := Some new,
            heap := (heap p)(new \<mapsto> \<lparr>app = application_object, own_helper = None\<rparr>),
            event_loop_single := event_loop_single p @ [new]\<rparr>)"

text \<open>
  \<open>process_events(self)\<close>.  The \<open>else\<close> branch assigns \<open>self._helper\<close>: an
  assignment through an instance binds the name in the instance, whatever the class holds.
\<close>

definition process_events :: "nat \<Rightarrow> pump \<Rightarrow> pump" where
  "process_events self p =
     (case heap p self of
        None \<Rightarrow> p
      | Some obj \<Rightarrow>
          (let p1 = (if windows_visible p
                     then p\<lparr>qt_calls := qt_calls p @ [ProcessEvents self, SendPostedEvents self]\<rparr>
                     else p) in
           if (case app obj of None \<Rightarrow> False | Some a \<Rightarrow> \<not> closingDown p1 a)
           then p1\<lparr>event_loop_single := event_loop_single p1 @ [self]\<rparr>
           else p1\<lparr>heap := (heap p1)(self \<mapsto> obj\<lparr>own_helper := Some None\<rparr>)\<rparr>))"

text \<open>
  An idle tick of the host: the callbacks queued so far are taken off the queue and run
  once each, in order; what they queue is for the next tick.
\<close>

definition idle_tick :: "pump \<Rightarrow> pump" where
  "idle_tick p = fold process_events (event_loop_single p) (p\<lparr>event_loop_single := []\<rparr>)"

section \<open>Startup commands (engine.py: ClarisseEngine._run_app_instance_commands)\<close>

text \<open>
  The names bound at module level in engine.py: its imports, functions, constants and
  classes.
\<close>

definition engine_module_globals :: "string list" where
  "engine_module_globals =
     [''__author__'', ''__contact__'', ''os'', ''sys'', ''time'', ''re'', ''inspect'', ''logging'', ''traceback'',
      ''wraps'', ''partial'', ''tank'', ''LogManager'', ''Engine'', ''SHOTGUN_ENGINE_NAME'',
      ''ix'', ''pyside_clarisse'', ''show_error'', ''show_warning'', ''show_info'',
      ''display_error'', ''display_warning'', ''display_info'', ''display_debug'',
      ''wrapped'', ''SCENE_EVENT_NAMES'', ''SCENE_QUIT_EVENT_NAME'', ''SceneEventWatcher'',
      ''refresh_engine'', ''on_scene_event_callback'', ''sgtk_disabled_message'',
      ''clear_sgtk_menu'', ''get_sgtk_root_menu'', ''create_sgtk_disabled_menu'',
      ''remove_sgtk_disabled_menu'', ''ClarisseEngine'']"

text \<open>
  An entry of \<open>self.commands\<close>: the instance name of the app in its properties, if
  there is one, and the callback.
\<close>

record 'f command_value =
  app_instance :: "string option"
  callback :: 'f

datatype startup_message =
    Warning_app_not_installed string
  | Warning_unknown_command string string "string list"
  | Debug_running string string

record 'f startup =
  deferred :: "'f list"
  startup_log :: "startup_message list"

text \<open>\<open>dict.setdefault(k, {})\<close> followed by \<open>d[name] = f\<close>, on insertion-ordered dicts.\<close>

fun dict_set :: "'a \<Rightarrow> 'b \<Rightarrow> ('a \<times> 'b) list \<Rightarrow> ('a \<times> 'b) list" where
  "dict_set k v [] = [(k, v)]"
| "dict_set k v ((k', v') # d) = (if k' = k then (k, v) # d else (k', v') # dict_set k v d)"

definition add_command ::
  "string \<times> 'f command_value \<Rightarrow> (string \<times> (string \<times> 'f) list) list \<Rightarrow>
   (string \<times> (string \<times> 'f) list) list" where
  "add_command entry d =
     (case app_instance (snd entry) of
        None \<Rightarrow> d
      | Some inst \<Rightarrow>
          (let command_dict = (case map_of d inst of None \<Rightarrow> [] | Some cd \<Rightarrow> cd) in
           dict_set inst (dict_set (fst entry) (callback (snd entry)) command_dict) d))"

definition app_instance_commands ::
  "(string \<times> 'f command_value) list \<Rightarrow> (string \<times> (string \<times> 'f) list) list" where
  "app_instance_commands commands = fold add_command commands []"

text \<open>
  \<open>clarisse.utils.executeDeferred(command_function)\<close>: the name \<open>clarisse\<close> is looked
  up among the module's globals first; an unbound name raises \<open>NameError\<close>.
\<close>

definition executeDeferred :: "'f \<Rightarrow> 'f startup \<Rightarrow> exn option \<times> 'f startup" where
  "executeDeferred command_function s =
     (if ''clarisse'' \<in> set engine_module_globals
      then (None, s\<lparr>deferred := deferred s @ [command_function]\<rparr>)
      else (Some (NameError ''clarisse''), s))"

text \<open>The inner loop over all commands of one app instance.\<close>

fun run_all_commands ::
  "string \<Rightarrow> (string \<times> 'f) list \<Rightarrow> 'f startup \<Rightarrow> exn option \<times> 'f startup" where
  "run_all_commands inst [] s = (None, s)"
| "run_all_commands inst ((command_name, command_function) # cd) s =
     (case executeDeferred command_function
             (s\<lparr>startup_log := startup_log s @ [Debug_running inst command_name]\<rparr>) of
        (Some e, s1) \<Rightarrow> (Some e, s1)
      | (None, s1) \<Rightarrow> run_all_commands inst cd s1)"

text \<open>
  One entry of \<open>run_at_startup\<close>.  A callback is an object and counts as true; the
  empty name counts as false.
\<close>

definition run_setting ::
  "(string \<times> (string \<times> 'f) list) list \<Rightarrow> string \<times> string \<Rightarrow> 'f startup \<Rightarrow>
   exn option \<times> 'f startup" where
  "run_setting d setting s =
     (let app_instance_name = fst setting; setting_command_name = snd setting in
      case map_of d app_instance_name of
        None \<Rightarrow>
          (None, s\<lparr>startup_log := startup_log s @ [Warning_app_not_installed app_instance_name]\<rparr>)
      | Some command_dict \<Rightarrow>
          if setting_command_name = [] then run_all_commands app_instance_name command_dict s
          else
            (case map_of command_dict setting_command_name of
               Some command_function \<Rightarrow>
                 executeDeferred command_function
                   (s\<lparr>startup_log := startup_log s @
                        [Debug_running app_instance_name setting_command_name]\<rparr>)
             | None \<Rightarrow>
                 (None,
                  s\<lparr>startup_log := startup_log s @
                       [Warning_unknown_command app_instance_name setting_command_name
                          (map fst command_dict)]\<rparr>)))"

fun run_settings ::
  "(string \<times> (string \<times> 'f) list) list \<Rightarrow> (string \<times> string) list \<Rightarrow> 'f startup \<Rightarrow>
   exn option \<times> 'f startup" where
  "run_settings d [] s = (None, s)"
| "run_settings d (setting # rest) s =
     (case run_setting d setting s of
        (Some e, s1) \<Rightarrow> (Some e, s1)
      | (None, s1) \<Rightarrow> run_settings d rest s1)"

definition run_app_instance_commands ::
  "(string \<times> 'f command_value) list \<Rightarrow> (string \<times> string) list \<Rightarrow> 'f startup \<Rightarrow>
   exn option \<times> 'f startup" where
  "run_app_instance_commands commands run_at_startup s =
     run_settings (app_instance_commands commands) run_at_startup s"

text \<open>
  Inputs to run the pump and the startup commands on: a pump before its first
  \<open>exec_\<close> under a Qt application that reports it is closing down, and the commands
  \<open>cmd1\<close>, \<open>cmd2\<close> of app instance \<open>A\<close> and \<open>cmd3\<close> of \<open>B\<close>, their
  callbacks numbered.
\<close>

definition shutting_down :: "nat \<Rightarrow> bool" where
  "shutting_down a = True"

definition unstarted_pump :: "(nat \<Rightarrow> bool) \<Rightarrow> bool \<Rightarrow> pump" where
  "unstarted_pump closing visible =
     \<lparr>cls_helper = None, heap = Map.empty, event_loop_single = [],
      closingDown = closing, windows_visible = visible, qt_calls = []\<rparr>"

definition example_commands :: "(string \<times> nat command_value) list" where
  "example_commands =
     [(''cmd1'', \<lparr>app_instance = Some ''A'', callback = 1\<rparr>),
      (''cmd2'', \<lparr>app_instance = Some ''A'', callback = 2\<rparr>),
      (''cmd3'', \<lparr>app_instance = Some ''B'', callback = 3\<rparr>)]"

definition no_startup :: "nat startup" where
  "no_startup = \<lparr>deferred = [], startup_log = []\<rparr>"

section \<open>Properties of the scene event watcher\<close>

lemma SCENE_EVENT_NAMES_distinct: "distinct SCENE_EVENT_NAMES"
  by (simp add: SCENE_EVENT_NAMES_def)

lemma quit_not_scene_event: "SCENE_QUIT_EVENT_NAME \<notin> set SCENE_EVENT_NAMES"
  by (simp add: SCENE_EVENT_NAMES_def SCENE_QUIT_EVENT_NAME_def)

lemma register_event_application:
  "application (register_event w x s) =
     (case application s x of None \<Rightarrow> application s
      | Some f \<Rightarrow> (application s)(x \<mapsto> Wrapper f w (Some SceneEventCallback) None))"
  by (simp add: register_event_def wrapped_def Let_def split: option.splits)

lemma register_event_table:
  "wrapped_fns (watchers (register_event w x s) w) =
     (case application s x of None \<Rightarrow> wrapped_fns (watchers s w)
      | Some f \<Rightarrow> (wrapped_fns (watchers s w))(x \<mapsto> Wrapper f w (Some SceneEventCallback) None))"
  by (simp add: register_event_def wrapped_def Let_def split: option.splits)

lemma fold_register_application:
  "distinct xs \<Longrightarrow>
   application (fold (register_event w) xs s) n =
     (if n \<in> set xs
      then map_option (\<lambda>f. Wrapper f w (Some SceneEventCallback) None) (application s n)
      else application s n)"
proof (induction xs arbitrary: s)
  case Nil
  then show ?case by simp
next
  case (Cons x xs)
  then show ?case
    by (auto simp: register_event_application split: option.splits)
qed

lemma fold_register_table:
  "distinct xs \<Longrightarrow>
   wrapped_fns (watchers (fold (register_event w) xs s) w) n =
     (if n \<in> set xs \<and> application s n \<noteq> None
      then map_option (\<lambda>f. Wrapper f w (Some SceneEventCallback) None) (application s n)
      else wrapped_fns (watchers s w) n)"
proof (induction xs arbitrary: s)
  case Nil
  then show ?case by simp
next
  case (Cons x xs)
  then show ?case
    by (auto simp: register_event_application register_event_table split: option.splits)
qed

lemma stop_watching_application:
  "application (stop_watching w s) n =
     (case wrapped_fns (watchers s w) n of None \<Rightarrow> application s n
      | Some event_fn \<Rightarrow> Some (original event_fn))"
  by (simp add: stop_watching_def)

lemma stop_watching_table: "wrapped_fns (watchers (stop_watching w s) w) = Map.empty"
  by (simp add: stop_watching_def)

lemma start_from_clean_application:
  assumes "wrapped_fns (watchers s w) = Map.empty"
  shows "application (snd (start_watching w s)) = installed w (application s)"
proof
  fix n
  let ?s1 = "stop_watching w s"
  let ?s2 = "fold (register_event w) SCENE_EVENT_NAMES ?s1"
  have a1: "application ?s1 = application s"
    using assms by (simp add: stop_watching_def)
  have a2: "application ?s2 m =
      (if m \<in> set SCENE_EVENT_NAMES
       then map_option (\<lambda>f. Wrapper f w (Some SceneEventCallback) None) (application s m)
       else application s m)" for m
    using fold_register_application [OF SCENE_EVENT_NAMES_distinct, of w ?s1 m] a1 by simp
  show "application (snd (start_watching w s)) n = installed w (application s) n"
    using a2 [of n] a2 [of SCENE_QUIT_EVENT_NAME] quit_not_scene_event
    by (auto simp: start_watching_def register_quit_def installed_def wrapped_def Let_def
        split: option.splits)
qed

lemma start_from_clean_table:
  assumes "wrapped_fns (watchers s w) = Map.empty"
  shows "wrapped_fns (watchers (snd (start_watching w s)) w) = installed_table w (application s)"
proof
  fix n
  let ?s1 = "stop_watching w s"
  let ?s2 = "fold (register_event w) SCENE_EVENT_NAMES ?s1"
  have a1: "application ?s1 = application s"
    using assms by (simp add: stop_watching_def)
  have a2: "application ?s2 m =
      (if m \<in> set SCENE_EVENT_NAMES
       then map_option (\<lambda>f. Wrapper f w (Some SceneEventCallback) None) (application s m)
       else application s m)" for m
    using fold_register_application [OF SCENE_EVENT_NAMES_distinct, of w ?s1 m] a1 by simp
  have t2: "wrapped_fns (watchers ?s2 w) m =
      (if m \<in> set SCENE_EVENT_NAMES \<and> application s m \<noteq> None
       then map_option (\<lambda>f. Wrapper f w (Some SceneEventCallback) None) (application s m)
       else None)" for m
    using fold_register_table [OF SCENE_EVENT_NAMES_distinct, of w ?s1 m] a1
    by (simp add: stop_watching_table)
  show "wrapped_fns (watchers (snd (start_watching w s)) w) n = installed_table w (application s) n"
    using t2 [of n] a2 [of SCENE_QUIT_EVENT_NAME] quit_not_scene_event
    by (auto simp: start_watching_def register_quit_def installed_def installed_table_def
        watched_names_def wrapped_def Let_def split: option.splits)
qed

lemma stop_after_installed:
  assumes "application s = installed w a" "wrapped_fns (watchers s w) = installed_table w a"
  shows "application (stop_watching w s) = a"
proof
  fix n
  show "application (stop_watching w s) n = a n"
    using assms
    by (cases "a n")
      (auto simp: stop_watching_application installed_def installed_table_def watched_names_def
        split: option.splits)
qed

lemma stop_watching_idem: "stop_watching w (stop_watching w s) = stop_watching w s"
  by (simp add: stop_watching_def)

lemma start_watching_stop: "start_watching w (stop_watching w s) = start_watching w s"
  by (simp add: start_watching_def stop_watching_idem)

lemma stop_clean: "clean_at w a s \<or> watching_at w a s \<Longrightarrow> clean_at w a (stop_watching w s)"
  by (auto simp: clean_at_def watching_at_def stop_watching_table stop_after_installed)
     (simp add: stop_watching_def)

lemma start_watching_at:
  assumes "clean_at w a s \<or> watching_at w a s"
  shows "watching_at w a (snd (start_watching w s))"
proof -
  have c: "clean_at w a (stop_watching w s)" using assms by (rule stop_clean)
  then have "watching_at w a (snd (start_watching w (stop_watching w s)))"
    unfolding clean_at_def watching_at_def
    using start_from_clean_application [of "stop_watching w s" w]
      start_from_clean_table [of "stop_watching w s" w] by simp
  then show ?thesis by (simp add: start_watching_stop)
qed

lemma init_watching_at:
  "watching_at w (application s) (snd (SceneEventWatcher_init w cb once s))"
  unfolding SceneEventWatcher_init_def
  by (rule start_watching_at) (simp add: clean_at_def)

lemma run_ops_state:
  assumes "clean_at w a s \<or> watching_at w a s"
  shows "(ops = [] \<longrightarrow> clean_at w a (run_ops w ops s) \<or> watching_at w a (run_ops w ops s)) \<and>
         (ops \<noteq> [] \<longrightarrow> (if last ops = Start then watching_at w a (run_ops w ops s)
                          else clean_at w a (run_ops w ops s)))"
proof (induction ops rule: rev_induct)
  case Nil
  then show ?case using assms by (simp add: run_ops_def)
next
  case (snoc x xs)
  have prev: "clean_at w a (run_ops w xs s) \<or> watching_at w a (run_ops w xs s)"
    using snoc by (cases "xs = []") (auto split: if_splits)
  have step: "run_ops w (xs @ [y]) s = run_op w y (run_ops w xs s)" for y
    by (simp add: run_ops_def)
  show ?case
    using prev start_watching_at [OF prev] stop_clean [OF prev]
    by (cases x) (simp_all add: step)
qed

lemma installed_wrap_count:
  "installed w a n = Some f \<Longrightarrow> \<exists>g. a n = Some g \<and> wrap_count w f \<le> Suc (wrap_count w g)"
  by (auto simp: installed_def split: if_splits)

text \<open>
  Claim C1.  A watcher is built (the constructor runs \<open>start_watching\<close>) on a
  host with any attributes, and any sequence of \<open>start_watching()\<close> and
  \<open>stop_watching()\<close> calls follows.  If the last call was a start, the host holds
  exactly what one start installs over the attributes it had at the beginning, and the
  table of the watcher holds the same wrappers; if it was a stop, the host holds its
  attributes of the beginning and the table is empty.  A further stop restores the
  attributes of the beginning, a second stop changes nothing, and no attribute ever
  carries more than one wrapper of this watcher on top of what the host held at first.
\<close>

theorem watcher_ops_patch_exactly_last_start:
  fixes s0 :: "'v world" and w :: nat and ops :: "watch_op list"
    and cb :: "exn option" and once :: bool
  defines "s \<equiv> run_ops w ops (snd (SceneEventWatcher_init w cb once s0))"
  shows "(if last (Start # ops) = Start
          then application s = installed w (application s0) \<and>
               wrapped_fns (watchers s w) = installed_table w (application s0)
          else application s = application s0 \<and> wrapped_fns (watchers s w) = Map.empty) \<and>
         application (stop_watching w s) = application s0 \<and>
         stop_watching w (stop_watching w s) = stop_watching w s \<and>
         (\<forall>n f. application s n = Some f \<longrightarrow>
            (\<exists>g. application s0 n = Some g \<and> wrap_count w f \<le> Suc (wrap_count w g)))"
proof -
  let ?a = "application s0"
  let ?s1 = "snd (SceneEventWatcher_init w cb once s0)"
  have w1: "watching_at w ?a ?s1" by (rule init_watching_at)
  then have inv: "clean_at w ?a ?s1 \<or> watching_at w ?a ?s1" by simp
  have st: "(ops = [] \<longrightarrow> clean_at w ?a s \<or> watching_at w ?a s) \<and>
         (ops \<noteq> [] \<longrightarrow> (if last ops = Start then watching_at w ?a s else clean_at w ?a s))"
    unfolding s_def by (rule run_ops_state [OF inv])
  have either: "clean_at w ?a s \<or> watching_at w ?a s"
    using st by (cases "ops = []") (auto split: if_splits)
  have p1: "if last (Start # ops) = Start
          then application s = installed w ?a \<and> wrapped_fns (watchers s w) = installed_table w ?a
          else application s = ?a \<and> wrapped_fns (watchers s w) = Map.empty"
  proof (cases "ops = []")
    case True
    then show ?thesis using w1 by (simp add: s_def run_ops_def watching_at_def)
  next
    case False
    then show ?thesis using st by (auto simp: watching_at_def clean_at_def split: if_splits)
  qed
  have p2: "application (stop_watching w s) = ?a"
    using stop_clean [OF either] by (simp add: clean_at_def)
  have p4: "\<forall>n f. application s n = Some f \<longrightarrow>
            (\<exists>g. ?a n = Some g \<and> wrap_count w f \<le> Suc (wrap_count w g))"
    using either installed_wrap_count [of w ?a]
    by (fastforce simp: clean_at_def watching_at_def)
  show ?thesis using p1 p2 p4 stop_watching_idem by blast
qed

text \<open>
  The theorem at a host that exposes \<open>load_project\<close> and \<open>quit\<close>: after
  stop, start, start the entry point carries one wrapper; after start, stop it is the
  host's own function again.
\<close>

theorem watcher_ops_patch_exactly_last_start_witness:
  "application (run_ops 0 [Stop, Start, Start]
      (snd (SceneEventWatcher_init 0 None False
         (fresh_host {''load_project'', ''quit''} :: unit world)))) ''load_project''
     = Some (Wrapper (Native ''load_project'') 0 (Some SceneEventCallback) None) \<and>
   application (run_ops 0 [Start, Stop]
      (snd (SceneEventWatcher_init 0 None False
         (fresh_host {''load_project'', ''quit''} :: unit world)))) ''load_project''
     = Some (Native ''load_project'')"
  using watcher_ops_patch_exactly_last_start
      [where ops = "[Stop, Start, Start]" and w = 0 and cb = None and once = False
         and ?s0.0 = "fresh_host {''load_project'', ''quit''} :: unit world"]
    watcher_ops_patch_exactly_last_start
      [where ops = "[Start, Stop]" and w = 0 and cb = None and once = False
         and ?s0.0 = "fresh_host {''load_project'', ''quit''} :: unit world"]
  by (simp add: installed_def fresh_host_def natives_def SCENE_EVENT_NAMES_def)

lemma user_calls_append: "user_calls w (xs @ ys) = user_calls w xs @ user_calls w ys"
  by (induction w xs rule: user_calls.induct) auto

lemma fire_missing: "application s n = None \<Longrightarrow> fire host n args s = (Inl (AttributeError n), s)"
  by (simp add: fire_def)

lemma fire_native:
  "application s n = Some (Native m) \<Longrightarrow>
   fire host n args s = (host m args, s\<lparr>trace := trace s @ [NativeCall m args (patched s)]\<rparr>)"
  by (simp add: fire_def native_call_def)

lemma fire_scene_wrapper:
  "application s n = Some (Wrapper (Native m) w (Some SceneEventCallback) None) \<Longrightarrow>
   fire host n args s =
     (let s2 = s\<lparr>trace := trace s @ [NativeCall m args (patched s)]\<rparr> in
      case host m args of
        Inl e \<Rightarrow> (Inl e, s2)
      | Inr r \<Rightarrow>
          (let s3 = (if run_once (watchers s2 w) then stop_watching w s2 else s2) in
           (case cb_fn (watchers s3 w) of None \<Rightarrow> Inr r | Some e \<Rightarrow> Inl e,
            s3\<lparr>trace := trace s3 @ [UserCallback w (patched_by w s3)]\<rparr>)))"
  by (simp add: fire_def native_call_def Let_def split: sum.splits option.splits)

lemma fire_quit_wrapper:
  "application s n = Some (Wrapper (Native m) w None (Some ClarisseExitingCallback)) \<Longrightarrow>
   fire host n args s = native_call host m args (stop_watching w s)"
  by (simp add: fire_def split: sum.splits prod.splits)

lemma clean_at_trace [simp]: "clean_at w a (s\<lparr>trace := t\<rparr>) = clean_at w a s"
  by (simp add: clean_at_def)

lemma watching_at_trace [simp]: "watching_at w a (s\<lparr>trace := t\<rparr>) = watching_at w a s"
  by (simp add: watching_at_def)

lemma stop_watching_fields [simp]:
  "run_once (watchers (stop_watching w s) w) = run_once (watchers s w)"
  "cb_fn (watchers (stop_watching w s) w) = cb_fn (watchers s w)"
  "trace (stop_watching w s) = trace s"
  by (simp_all add: stop_watching_def)

lemma patched_by_natives: "application s = natives A \<Longrightarrow> patched_by w s = []"
  by (simp add: patched_by_def natives_def)

lemma patched_natives: "application s = natives A \<Longrightarrow> patched s = []"
  by (simp add: patched_def natives_def)

lemma installed_natives_cases:
  "installed w (natives A) n = None \<or>
   installed w (natives A) n = Some (Native n) \<or>
   (n \<in> set SCENE_EVENT_NAMES \<and>
    installed w (natives A) n = Some (Wrapper (Native n) w (Some SceneEventCallback) None)) \<or>
   (n = SCENE_QUIT_EVENT_NAME \<and>
    installed w (natives A) n = Some (Wrapper (Native n) w None (Some ClarisseExitingCallback)))"
  by (simp add: installed_def natives_def)

lemma once_inv_fire:
  assumes "once_inv w A s"
  shows "once_inv w A (snd (fire host n args s))"
proof -
  from assms have ro: "run_once (watchers s w)" by (simp add: once_inv_def)
  from assms consider
      (watching) "watching_at w (natives A) s" "user_calls w (trace s) = []"
    | (clean) "clean_at w (natives A) s"
        "user_calls w (trace s) = [] \<or> user_calls w (trace s) = [[]]"
    by (auto simp: once_inv_def)
  then show ?thesis
  proof cases
    case watching
    then have app: "application s = installed w (natives A)" by (simp add: watching_at_def)
    have stop: "clean_at w (natives A) (stop_watching w s)"
      using stop_clean [of w "natives A" s] watching by simp
    from installed_natives_cases [of w A n] consider
        (none) "application s n = None"
      | (nat) "application s n = Some (Native n)"
      | (scene) "application s n = Some (Wrapper (Native n) w (Some SceneEventCallback) None)"
      | (quit) "application s n = Some (Wrapper (Native n) w None (Some ClarisseExitingCallback))"
      using app by auto
    then show ?thesis
    proof cases
      case none
      then show ?thesis using assms by (simp add: fire_missing)
    next
      case nat
      then show ?thesis using assms watching
        by (simp add: fire_native once_inv_def user_calls_append)
    next
      case scene
      have sw: "stop_watching w (s\<lparr>trace := t\<rparr>) = (stop_watching w s)\<lparr>trace := t\<rparr>" for t
        by (simp add: stop_watching_def cong: option.case_cong)
      have pb: "patched_by w ((stop_watching w s)\<lparr>trace := t\<rparr>) = []" for t
        using stop by (intro patched_by_natives [of _ A]) (simp add: clean_at_def)
      show ?thesis
        using ro watching stop
        by (cases "host n args")
          (simp_all add: fire_scene_wrapper [OF scene] Let_def once_inv_def user_calls_append
            sw pb)
    next
      case quit
      then show ?thesis using ro watching stop
        by (simp add: fire_quit_wrapper native_call_def once_inv_def user_calls_append)
    qed
  next
    case clean
    then have app: "application s = natives A" by (simp add: clean_at_def)
    show ?thesis
    proof (cases "n \<in> A")
      case True
      then have "application s n = Some (Native n)" using app by (simp add: natives_def)
      then show ?thesis using ro clean
        by (simp add: fire_native once_inv_def user_calls_append)
    next
      case False
      then have "application s n = None" using app by (simp add: natives_def)
      then show ?thesis using assms by (simp add: fire_missing)
    qed
  qed
qed

lemma once_inv_run_events: "once_inv w A s \<Longrightarrow> once_inv w A (run_events host evs s)"
  by (induction evs arbitrary: s) (auto simp: once_inv_fire)

lemma fresh_host_application: "application (fresh_host A) = natives A"
  by (simp add: fresh_host_def)

lemma register_event_fields:
  "run_once (watchers (register_event w x s) w) = run_once (watchers s w)"
  "cb_fn (watchers (register_event w x s) w) = cb_fn (watchers s w)"
  "user_calls v (trace (register_event w x s)) = user_calls v (trace s)"
  by (simp_all add: register_event_def Let_def user_calls_append split: option.splits)

lemma fold_register_fields:
  "run_once (watchers (fold (register_event w) xs s) w) = run_once (watchers s w) \<and>
   cb_fn (watchers (fold (register_event w) xs s) w) = cb_fn (watchers s w) \<and>
   user_calls v (trace (fold (register_event w) xs s)) = user_calls v (trace s)"
  by (induction xs arbitrary: s) (simp_all add: register_event_fields)

lemma register_quit_fields:
  "run_once (watchers (snd (register_quit w s)) w) = run_once (watchers s w)"
  "cb_fn (watchers (snd (register_quit w s)) w) = cb_fn (watchers s w)"
  "trace (snd (register_quit w s)) = trace s"
  by (simp_all add: register_quit_def Let_def split: option.splits)

lemma start_watching_fields:
  "run_once (watchers (snd (start_watching w s)) w) = run_once (watchers s w)"
  "cb_fn (watchers (snd (start_watching w s)) w) = cb_fn (watchers s w)"
  "user_calls v (trace (snd (start_watching w s))) = user_calls v (trace s)"
  by (simp_all add: start_watching_def register_quit_fields fold_register_fields)

lemma init_fields:
  "run_once (watchers (snd (SceneEventWatcher_init w cb once s)) w) = once"
  "cb_fn (watchers (snd (SceneEventWatcher_init w cb once s)) w) = cb"
  "user_calls v (trace (snd (SceneEventWatcher_init w cb once s))) = user_calls v (trace s)"
  by (simp_all add: SceneEventWatcher_init_def start_watching_fields)

lemma fresh_host_trace: "trace (fresh_host A) = []"
  by (simp add: fresh_host_def)

lemma init_once_inv:
  "once_inv w A (snd (SceneEventWatcher_init w cb True (fresh_host A :: 'v world)))"
proof -
  have "watching_at w (natives A)
          (snd (SceneEventWatcher_init w cb True (fresh_host A :: 'v world)))"
    using init_watching_at [of w "fresh_host A" cb True] by (simp add: fresh_host_application)
  then show ?thesis
    by (simp add: once_inv_def init_fields fresh_host_trace)
qed

text \<open>
  Claim C2.  A watcher built with \<open>run_once=True\<close> on a host whose entry points
  are its own functions, followed by any number of lifecycle events, each of which may
  return or raise: the user callback has run at most once, at the moment it ran no
  watched entry point was patched by the watcher, and once it has run the host holds its
  own functions again and the table of the watcher is empty.
\<close>

theorem run_once_callback_at_most_once:
  fixes host :: "string \<Rightarrow> 'v \<Rightarrow> exn + 'v" and evs :: "(string \<times> 'v) list"
    and w :: nat and cb :: "exn option" and A :: "string set"
  defines "s \<equiv> run_events host evs (snd (SceneEventWatcher_init w cb True (fresh_host A)))"
  shows "length (user_calls w (trace s)) \<le> 1 \<and>
         (\<forall>p \<in> set (user_calls w (trace s)). p = []) \<and>
         (user_calls w (trace s) \<noteq> [] \<longrightarrow>
            patched_by w s = [] \<and> application s = application (fresh_host A) \<and>
            wrapped_fns (watchers s w) = Map.empty)"
proof -
  have "once_inv w A s"
    unfolding s_def by (rule once_inv_run_events [OF init_once_inv])
  then show ?thesis
    by (auto simp: once_inv_def clean_at_def fresh_host_application patched_by_natives)
qed

text \<open>
  The theorem at three successful events: the callback ran once, with nothing patched,
  and \<open>save_project\<close> is the host's own function afterwards.
\<close>

theorem run_once_callback_at_most_once_witness:
  "user_calls 0 (trace (run_events (\<lambda>n a. Inr a)
       [(''load_project'', ()), (''save_project'', ()), (''load_project'', ())]
       (snd (SceneEventWatcher_init 0 None True
          (fresh_host {''load_project'', ''save_project'', ''quit''}))))) = [[]] \<and>
   application (run_events (\<lambda>n a. Inr a)
       [(''load_project'', ()), (''save_project'', ()), (''load_project'', ())]
       (snd (SceneEventWatcher_init 0 None True
          (fresh_host {''load_project'', ''save_project'', ''quit''})))) ''save_project''
     = Some (Native ''save_project'')"
proof -
  let ?s = "run_events (\<lambda>n a. Inr a)
       [(''load_project'', ()), (''save_project'', ()), (''load_project'', ())]
       (snd (SceneEventWatcher_init 0 None True
          (fresh_host {''load_project'', ''save_project'', ''quit''})))"
  have fired: "user_calls 0 (trace ?s) = [[]]"
    by (simp add: SceneEventWatcher_init_def start_watching_def register_quit_def
        register_event_def stop_watching_def fresh_host_def natives_def SCENE_EVENT_NAMES_def
        SCENE_QUIT_EVENT_NAME_def wrapped_def fire_def native_call_def patched_by_def
        patched_def watched_names_def Let_def)
  then show ?thesis
    using run_once_callback_at_most_once
      [where host = "\<lambda>n a. Inr a"
         and evs = "[(''load_project'', ()), (''save_project'', ()), (''load_project'', ())]"
         and w = 0 and cb = None and A = "{''load_project'', ''save_project'', ''quit''}"]
    by (simp add: fresh_host_def natives_def)
qed

lemma patched_installed:
  "application s = installed w (natives A) \<Longrightarrow>
   patched s = filter (\<lambda>n. n \<in> A) watched_names \<and>
   patched_by w s = filter (\<lambda>n. n \<in> A) watched_names"
  unfolding patched_def patched_by_def
  by (auto intro!: filter_cong simp: installed_def natives_def watched_names_def)

lemma init_fresh_watching:
  "watching_at w (natives A) (snd (SceneEventWatcher_init w cb once (fresh_host A :: 'v world)))"
  using init_watching_at [of w "fresh_host A :: 'v world" cb once]
  by (simp add: fresh_host_application)

text \<open>
  Claim C3.  After a watcher is built on a host whose entry points are its own functions:
  calling a patched scene event that the host exposes, when the host's function returns,
  first calls that function with the same arguments (all exposed entry points still
  patched) and then the user callback through the post-callback, and nothing else; calling
  the patched quit calls the host's quit with the same arguments in a state where the
  watcher has already stopped (no entry point patched, table empty), and returns or raises
  what quit does.
\<close>

theorem patched_entry_point_call_order:
  fixes host :: "string \<Rightarrow> 'v \<Rightarrow> exn + 'v" and args :: 'v
    and w :: nat and cb :: "exn option" and once :: bool and A :: "string set"
  defines "s1 \<equiv> snd (SceneEventWatcher_init w cb once (fresh_host A))"
  shows "(\<forall>n \<in> set SCENE_EVENT_NAMES. \<forall>r. n \<in> A \<and> host n args = Inr r \<longrightarrow>
            fst (fire host n args s1) = (case cb of None \<Rightarrow> Inr r | Some e \<Rightarrow> Inl e) \<and>
            trace (snd (fire host n args s1)) =
              trace s1 @
                [NativeCall n args (filter (\<lambda>m. m \<in> A) watched_names),
                 UserCallback w (if once then [] else filter (\<lambda>m. m \<in> A) watched_names)]) \<and>
         (SCENE_QUIT_EVENT_NAME \<in> A \<longrightarrow>
            fst (fire host SCENE_QUIT_EVENT_NAME args s1) = host SCENE_QUIT_EVENT_NAME args \<and>
            trace (snd (fire host SCENE_QUIT_EVENT_NAME args s1)) =
              trace s1 @ [NativeCall SCENE_QUIT_EVENT_NAME args []] \<and>
            application (snd (fire host SCENE_QUIT_EVENT_NAME args s1)) =
              application (fresh_host A) \<and>
            wrapped_fns (watchers (snd (fire host SCENE_QUIT_EVENT_NAME args s1)) w) = Map.empty)"
proof -
  have wa: "watching_at w (natives A) s1"
    unfolding s1_def by (rule init_fresh_watching)
  then have app: "application s1 = installed w (natives A)" by (simp add: watching_at_def)
  have ro: "run_once (watchers s1 w) = once" and cbf: "cb_fn (watchers s1 w) = cb"
    unfolding s1_def by (simp_all add: init_fields)
  have stop: "clean_at w (natives A) (stop_watching w s1)"
    using stop_clean [of w "natives A" s1] wa by simp
  have sw: "stop_watching w (s1\<lparr>trace := t\<rparr>) = (stop_watching w s1)\<lparr>trace := t\<rparr>" for t
    by (simp add: stop_watching_def cong: option.case_cong)
  have pb: "patched_by w ((stop_watching w s1)\<lparr>trace := t\<rparr>) = []" for t
    using stop by (intro patched_by_natives [of _ A]) (simp add: clean_at_def)
  have pbt: "patched_by w (s1\<lparr>trace := t\<rparr>) = patched_by w s1" for t
    by (simp add: patched_by_def)
  have scene: "fst (fire host n args s1) = (case cb of None \<Rightarrow> Inr r | Some e \<Rightarrow> Inl e) \<and>
            trace (snd (fire host n args s1)) =
              trace s1 @
                [NativeCall n args (filter (\<lambda>m. m \<in> A) watched_names),
                 UserCallback w (if once then [] else filter (\<lambda>m. m \<in> A) watched_names)]"
    if "n \<in> set SCENE_EVENT_NAMES" "n \<in> A" "host n args = Inr r" for n r
  proof -
    have "application s1 n = Some (Wrapper (Native n) w (Some SceneEventCallback) None)"
      using that app by (simp add: installed_def natives_def)
    then show ?thesis
      using that ro cbf patched_installed [OF app]
      by (simp add: fire_scene_wrapper Let_def sw pb pbt split: option.splits)
  qed
  have quit: "fst (fire host SCENE_QUIT_EVENT_NAME args s1) = host SCENE_QUIT_EVENT_NAME args \<and>
            trace (snd (fire host SCENE_QUIT_EVENT_NAME args s1)) =
              trace s1 @ [NativeCall SCENE_QUIT_EVENT_NAME args []] \<and>
            application (snd (fire host SCENE_QUIT_EVENT_NAME args s1)) =
              application (fresh_host A) \<and>
            wrapped_fns (watchers (snd (fire host SCENE_QUIT_EVENT_NAME args s1)) w) = Map.empty"
    if "SCENE_QUIT_EVENT_NAME \<in> A"
  proof -
    have "application s1 SCENE_QUIT_EVENT_NAME =
        Some (Wrapper (Native SCENE_QUIT_EVENT_NAME) w None (Some ClarisseExitingCallback))"
      using that app quit_not_scene_event by (simp add: installed_def natives_def)
    then show ?thesis
      using stop patched_natives [of "stop_watching w s1" A]
      by (simp add: fire_quit_wrapper native_call_def clean_at_def fresh_host_application)
  qed
  show ?thesis using scene quit by blast
qed

text \<open>
  The theorem at a host that exposes \<open>save_project\<close> and \<open>quit\<close>.
\<close>

theorem patched_entry_point_call_order_witness:
  "trace (snd (fire (\<lambda>n a. Inr a) ''save_project'' ''scene.project''
      (snd (SceneEventWatcher_init 0 None False (fresh_host {''save_project'', ''quit''}))))) =
     trace (snd (SceneEventWatcher_init 0 None False (fresh_host {''save_project'', ''quit''}))) @
     [NativeCall ''save_project'' ''scene.project'' [''save_project'', ''quit''],
      UserCallback 0 [''save_project'', ''quit'']] \<and>
   trace (snd (fire (\<lambda>n a. Inr a) ''quit'' ''scene.project''
      (snd (SceneEventWatcher_init 0 None False (fresh_host {''save_project'', ''quit''}))))) =
     trace (snd (SceneEventWatcher_init 0 None False (fresh_host {''save_project'', ''quit''}))) @
     [NativeCall ''quit'' ''scene.project'' []]"
proof -
  have m: "''save_project'' \<in> set SCENE_EVENT_NAMES"
    by (simp add: SCENE_EVENT_NAMES_def)
  have f: "filter (\<lambda>m. m \<in> {''save_project'', ''quit''}) watched_names
      = [''save_project'', ''quit'']"
    by (simp add: SCENE_EVENT_NAMES_def SCENE_QUIT_EVENT_NAME_def watched_names_def)
  show ?thesis
    using patched_entry_point_call_order
      [where host = "\<lambda>n a. Inr a" and args = "''scene.project''" and w = 0 and cb = None
         and once = False and A = "{''save_project'', ''quit''}"] m
    unfolding f by (auto simp: SCENE_QUIT_EVENT_NAME_def)
qed

text \<open>
  Claim C10.  A wrapper built by \<open>wrapped\<close> with a post-callback: when the wrapped
  function raises, the wrapper raises the same exception and leaves the state the function
  left, so the post-callback has not run.  A wrapper with a pre-callback: when the
  pre-callback raises, the wrapper raises the same exception and leaves the state the
  pre-callback left, so the wrapped function has not run.  For a watcher on a host: a
  scene event whose host function raises adds the call of that function to the trace and
  nothing else; no user callback runs and the watcher stays as it was.
\<close>

theorem wrapper_exception_propagation:
  fixes cb :: "callback \<Rightarrow> nat \<Rightarrow> 's \<Rightarrow> exn option \<times> 's"
    and run_native :: "string \<Rightarrow> 'v \<Rightarrow> 's \<Rightarrow> (exn + 'v) \<times> 's"
    and host :: "string \<Rightarrow> 'v \<Rightarrow> exn + 'v" and args :: 'v
    and w :: nat and ucb :: "exn option" and once :: bool and A :: "string set"
  defines "s1 \<equiv> snd (SceneEventWatcher_init w ucb once (fresh_host A))"
  shows "(call cb run_native f args s = (Inl e, s') \<longrightarrow>
            call cb run_native (wrapped f w (Some post) None) args s = (Inl e, s')) \<and>
         (cb pre w s = (Some e, s') \<longrightarrow>
            call cb run_native (wrapped f w post_opt (Some pre)) args s = (Inl e, s')) \<and>
         (n \<in> set SCENE_EVENT_NAMES \<and> n \<in> A \<and> host n args = Inl e \<longrightarrow>
            fire host n args s1 =
              (Inl e,
               s1\<lparr>trace := trace s1 @
                    [NativeCall n args (filter (\<lambda>m. m \<in> A) watched_names)]\<rparr>))"
proof -
  have p3: "fire host n args s1 =
              (Inl e,
               s1\<lparr>trace := trace s1 @
                    [NativeCall n args (filter (\<lambda>m. m \<in> A) watched_names)]\<rparr>)"
    if "n \<in> set SCENE_EVENT_NAMES" "n \<in> A" "host n args = Inl e"
  proof -
    have "watching_at w (natives A) s1" unfolding s1_def by (rule init_fresh_watching)
    then have app: "application s1 = installed w (natives A)" by (simp add: watching_at_def)
    have "application s1 n = Some (Wrapper (Native n) w (Some SceneEventCallback) None)"
      using that app by (simp add: installed_def natives_def)
    then show ?thesis
      using that patched_installed [OF app]
      by (simp add: fire_scene_wrapper Let_def)
  qed
  show ?thesis using p3 by (simp add: wrapped_def)
qed

text \<open>
  The theorem at a pre-callback that raises (the function would have counted one step),
  at a function that raises (the post-callback would have counted ten), and at a watched
  \<open>save_project\<close> that raises.
\<close>

theorem wrapper_exception_propagation_witness:
  "call (\<lambda>c w s. (Some (OtherError ''cleanup failed''), s)) (\<lambda>n a s. (Inr a, Suc s))
      (wrapped (Native ''quit'') 0 None (Some ClarisseExitingCallback)) () (0::nat)
     = (Inl (OtherError ''cleanup failed''), 0) \<and>
   call (\<lambda>c w s. (None, s + 10)) (\<lambda>n a s. (Inl (OtherError ''disk full''), Suc s))
      (wrapped (Native ''save_project'') 0 (Some SceneEventCallback) None) () (0::nat)
     = (Inl (OtherError ''disk full''), 1) \<and>
   fst (fire (\<lambda>n a. Inl (OtherError ''disk full'')) ''save_project'' ()
      (snd (SceneEventWatcher_init 0 None False (fresh_host {''save_project'', ''quit''}))))
     = Inl (OtherError ''disk full'')"
  using wrapper_exception_propagation
      [where cb = "\<lambda>c w s. (Some (OtherError ''cleanup failed''), s)"
         and run_native = "\<lambda>n a s. (Inr a, Suc s)" and f = "Native ''quit''" and w = 0
         and post_opt = None and pre = ClarisseExitingCallback and s = "0::nat" and s' = 0
         and e = "OtherError ''cleanup failed''" and args = "()"]
    wrapper_exception_propagation
      [where cb = "\<lambda>c w s. (None, s + 10)"
         and run_native = "\<lambda>n a s. (Inl (OtherError ''disk full''), Suc s)"
         and f = "Native ''save_project''" and w = 0 and post = SceneEventCallback
         and s = "0::nat" and s' = 1 and e = "OtherError ''disk full''" and args = "()"
         and host = "\<lambda>n a. Inl (OtherError ''disk full'')" and n = "''save_project''"
         and A = "{''save_project'', ''quit''}" and ucb = None and once = False]
  by (simp add: SCENE_EVENT_NAMES_def)

text \<open>
  Claim C4.  On a host that exposes the six scene events and no \<open>quit\<close>, the
  constructor, that is \<open>start_watching\<close>, raises \<open>AttributeError\<close>, with the
  six scene events already patched: the registration of quit is not skipped.
\<close>

theorem start_watching_raises_without_quit:
  "fst (SceneEventWatcher_init 0 None False (fresh_host (set SCENE_EVENT_NAMES) :: unit world))
     = Some (AttributeError ''quit'') \<and>
   patched (snd (SceneEventWatcher_init 0 None False
      (fresh_host (set SCENE_EVENT_NAMES) :: unit world))) = SCENE_EVENT_NAMES"
  by (simp add: SceneEventWatcher_init_def start_watching_def register_quit_def
      register_event_def stop_watching_def fresh_host_def natives_def SCENE_EVENT_NAMES_def
      SCENE_QUIT_EVENT_NAME_def wrapped_def patched_def watched_names_def Let_def)

section \<open>Properties of the context refresh\<close>

text \<open>
  Claim C5.  With a current engine and the empty file name, \<open>refresh_engine\<close>
  returns without an exception; when \<open>prev_context\<close> differs from the engine's
  context the only thing it does is \<open>change_context(prev_context)\<close>, and when they
  are equal it does nothing at all.  No call of the toolkit's path resolution is made in
  either case.
\<close>

theorem refresh_engine_new_file:
  assumes "current_engine s = Some eng" "current_project_filename s = []"
  shows "refresh_engine tk engine_name prev_context menu_name s =
     (None,
      if prev_context \<noteq> engine_context eng
      then s\<lparr>current_engine := Some (eng\<lparr>engine_context := prev_context\<rparr>),
             actions := actions s @ [ChangeContext prev_context]\<rparr>
      else s)"
  using assms by (simp add: refresh_engine_def change_context_def)

lemma get_sgtk_root_menu_fields [simp]:
  "current_engine (get_sgtk_root_menu m s) = current_engine s"
  "actions (get_sgtk_root_menu m s) = actions s"
  "is_gui_application (get_sgtk_root_menu m s) = is_gui_application s"
  "menu_callbacks (get_sgtk_root_menu m s) = menu_callbacks s"
  "menu_scripts (get_sgtk_root_menu m s) = menu_scripts s"
  "asctime (get_sgtk_root_menu m s) = asctime s"
  by (simp_all add: get_sgtk_root_menu_def)

lemma get_sgtk_root_menu_set:
  "set (main_menu (get_sgtk_root_menu m s)) = insert (m @ ''>'') (set (main_menu s))"
  by (auto simp: get_sgtk_root_menu_def)

lemma create_sgtk_disabled_menu_fields [simp]:
  "current_engine (create_sgtk_disabled_menu m s) = current_engine s"
  "actions (create_sgtk_disabled_menu m s) = actions s"
  "is_gui_application (create_sgtk_disabled_menu m s) = is_gui_application s"
  "asctime (create_sgtk_disabled_menu m s) = asctime s"
  by (simp_all add: create_sgtk_disabled_menu_def Let_def)



lemma display_error_fields [simp]:
  "current_engine (display_error msg s) = current_engine s"
  "main_menu (display_error msg s) = main_menu s"
  "menu_callbacks (display_error msg s) = menu_callbacks s"
  "is_gui_application (display_error msg s) = is_gui_application s"
  "actions (display_error msg s) =
     actions s @ [Printed (asctime s @ '' - Shotgun Error | Clarisse engine | '' @ msg @ '' ''),
                  LogError (asctime s @ '' - Shotgun Error | Clarisse engine | '' @ msg @ '' '')]"
  by (simp_all add: display_error_def Let_def)

lemma resolve_from_path_fields [simp]:
  "current_engine (snd (resolve_from_path tk prev p s)) = current_engine s"
  "main_menu (snd (resolve_from_path tk prev p s)) = main_menu s"
  "menu_callbacks (snd (resolve_from_path tk prev p s)) = menu_callbacks s"
  "is_gui_application (snd (resolve_from_path tk prev p s)) = is_gui_application s"
  "asctime (snd (resolve_from_path tk prev p s)) = asctime s"
  by (simp_all add: resolve_from_path_def split: sum.splits)

lemma resolve_from_path_actions:
  "actions (snd (resolve_from_path tk prev p s)) = actions s @ [TankFromPath p] \<or>
   actions (snd (resolve_from_path tk prev p s)) =
     actions s @ [TankFromPath p, ContextFromPath p prev]"
  by (simp add: resolve_from_path_def split: sum.splits)


lemma clear_sgtk_menu_fields [simp]:
  "current_engine (clear_sgtk_menu m s) = current_engine s"
  "actions (clear_sgtk_menu m s) = actions s"
  "is_gui_application (clear_sgtk_menu m s) = is_gui_application s"
  by (simp_all add: clear_sgtk_menu_def Let_def)

lemma clear_sgtk_menu_batch: "\<not> is_gui_application s \<Longrightarrow> clear_sgtk_menu m s = s"
  by (simp add: clear_sgtk_menu_def)

lemma disabled_item_prefix: "prefix (m @ ''>'') (disabled_item m)"
  by (simp add: disabled_item_def)

lemma clear_sgtk_menu_gui:
  "is_gui_application s \<Longrightarrow> disabled_item m \<notin> set (main_menu (clear_sgtk_menu m s))"
  by (simp add: clear_sgtk_menu_def Let_def disabled_item_prefix)

lemma root_not_disabled_item: "e @ ''>'' \<noteq> disabled_item m"
proof
  assume "e @ ''>'' = disabled_item m"
  then have "last (e @ ''>'') = last (disabled_item m)" by simp
  then show False by (simp add: disabled_item_def)
qed

lemma create_shotgun_menu_batch:
  "\<not> is_gui_application s \<Longrightarrow> create_shotgun_menu eng s = (False, s)"
  by (simp add: create_shotgun_menu_def)

lemma create_shotgun_menu_gui:
  assumes "is_gui_application s"
  shows "fst (create_shotgun_menu eng s) = True"
    and "set (main_menu (snd (create_shotgun_menu eng s))) =
           insert (engine_menu_name eng @ ''>'') (set (main_menu s))"
    and "actions (snd (create_shotgun_menu eng s)) =
           actions s @ [MenuGeneratorCreateMenu (engine_menu_name eng)]"
    and "current_engine (snd (create_shotgun_menu eng s)) = current_engine s"
  using assms by (simp_all add: create_shotgun_menu_def Let_def get_sgtk_root_menu_set)

lemma refresh_resolved_same:
  assumes eng: "current_engine s = Some eng"
  shows "fst (refresh_resolved menu_name eng (engine_context eng) s) = None \<and>
     current_engine (snd (refresh_resolved menu_name eng (engine_context eng) s)) = Some eng \<and>
     actions (snd (refresh_resolved menu_name eng (engine_context eng) s)) =
       actions s @ (if is_gui_application s
                    then [MenuGeneratorCreateMenu (engine_menu_name eng)] else []) \<and>
     (if is_gui_application s
      then disabled_item menu_name \<notin>
             set (main_menu (snd (refresh_resolved menu_name eng (engine_context eng) s))) \<and>
           engine_menu_name eng @ ''>'' \<in>
             set (main_menu (snd (refresh_resolved menu_name eng (engine_context eng) s)))
      else main_menu (snd (refresh_resolved menu_name eng (engine_context eng) s)) = main_menu s)"
proof (cases "is_gui_application s")
  case True
  let ?s1 = "clear_sgtk_menu menu_name s"
  have g1: "is_gui_application ?s1" using True by simp
  have e1: "current_engine (snd (create_shotgun_menu eng ?s1)) = Some eng"
    using create_shotgun_menu_gui(4) [OF g1, of eng] eng by simp
  show ?thesis
    using True e1 create_shotgun_menu_gui(2,3) [OF g1, of eng]
      clear_sgtk_menu_gui [OF True, of menu_name] root_not_disabled_item [of "engine_menu_name eng" menu_name]
    by (simp add: refresh_resolved_def remove_sgtk_disabled_menu_def Let_def)
next
  case False
  then show ?thesis
    using eng
    by (simp add: refresh_resolved_def remove_sgtk_disabled_menu_def Let_def
        clear_sgtk_menu_batch create_shotgun_menu_batch)
qed

text \<open>
  Claim C7, as amended.  With a current engine and a non-empty file name, when the
  resolution from the path, or after its \<open>TankError\<close> the resolution from the
  engine's project, gives the context the engine already has: \<open>refresh_engine\<close>
  returns without an exception, the engine and its context are as before, and the actions
  are the resolution attempts followed, with a user interface, by one run of the menu
  generator; there is no \<open>change_context\<close>.  With a user interface the placeholder
  is not in the main menu afterwards and the root of the engine's menu is; in batch mode
  the main menu is untouched.
\<close>

theorem refresh_engine_same_context:
  fixes s :: "('c, 'k) session" and tk :: "('c, 'k) toolkit"
    and engine_name menu_name :: string and prev_context :: 'c and r :: raised
    and eng :: "('c, 'k) engine"
  defines "new_path \<equiv> abspath tk (current_project_filename s)"
  defines "s' \<equiv> snd (refresh_engine tk engine_name prev_context menu_name s)"
  defines "menu_acts \<equiv> (if is_gui_application s
                          then [MenuGeneratorCreateMenu (engine_menu_name eng)] else [])"
  assumes eng: "current_engine s = Some eng"
    and scene: "current_project_filename s \<noteq> []"
    and res: "fst (resolve_from_path tk prev_context new_path s) = Inr (engine_context eng) \<or>
              (fst (resolve_from_path tk prev_context new_path s) = Inl r \<and> is_TankError (fst r) \<and>
               context_from_entity_dictionary tk (sgtk eng) (engine_context eng)
                 = Inr (engine_context eng))"
  shows "fst (refresh_engine tk engine_name prev_context menu_name s) = None \<and>
      current_engine s' = Some eng \<and>
      (actions s' = actions s @
           [TankFromPath new_path, ContextFromPath new_path prev_context] @ menu_acts \<or>
       actions s' = actions s @
           [TankFromPath new_path, ContextFromEntityDictionary (engine_context eng)] @ menu_acts \<or>
       actions s' = actions s @
           [TankFromPath new_path, ContextFromPath new_path prev_context,
            ContextFromEntityDictionary (engine_context eng)] @ menu_acts) \<and>
      (if is_gui_application s
       then disabled_item menu_name \<notin> set (main_menu s') \<and>
            engine_menu_name eng @ ''>'' \<in> set (main_menu s')
       else main_menu s' = main_menu s)"
proof -
  define s1 where "s1 = snd (resolve_from_path tk prev_context new_path s)"
  have f1: "current_engine s1 = Some eng" "is_gui_application s1 = is_gui_application s"
    "main_menu s1 = main_menu s"
    using eng by (simp_all add: s1_def)
  from res show ?thesis
  proof
    assume ok: "fst (resolve_from_path tk prev_context new_path s) = Inr (engine_context eng)"
    then have r1: "resolve_from_path tk prev_context new_path s = (Inr (engine_context eng), s1)"
      unfolding s1_def by (metis prod.collapse)
    have run: "refresh_engine tk engine_name prev_context menu_name s =
        refresh_resolved menu_name eng (engine_context eng) s1"
      using eng scene
      by (simp add: refresh_engine_def Let_def r1 new_path_def [symmetric])
    have a1: "actions s1 = actions s @ [TankFromPath new_path, ContextFromPath new_path prev_context]"
      using ok unfolding s1_def by (auto simp: resolve_from_path_def split: sum.splits)
    show ?thesis
      using refresh_resolved_same [OF f1(1), of menu_name] f1 a1
      by (simp add: run s'_def menu_acts_def)
  next
    assume fb: "fst (resolve_from_path tk prev_context new_path s) = Inl r \<and> is_TankError (fst r) \<and>
               context_from_entity_dictionary tk (sgtk eng) (engine_context eng)
                 = Inr (engine_context eng)"
    then have r1: "resolve_from_path tk prev_context new_path s = (Inl r, s1)"
      unfolding s1_def by (metis prod.collapse)
    let ?s2 = "s1\<lparr>actions := actions s1 @ [ContextFromEntityDictionary (engine_context eng)]\<rparr>"
    have run: "refresh_engine tk engine_name prev_context menu_name s =
        refresh_resolved menu_name eng (engine_context eng) ?s2"
      using eng scene fb
      by (simp add: refresh_engine_def resolve_from_project_def Let_def r1 new_path_def [symmetric])
    have f2: "current_engine ?s2 = Some eng" using f1 by simp
    have a1: "actions s1 = actions s @ [TankFromPath new_path] \<or>
       actions s1 = actions s @ [TankFromPath new_path, ContextFromPath new_path prev_context]"
      unfolding s1_def by (rule resolve_from_path_actions)
    show ?thesis
      using refresh_resolved_same [OF f2, of menu_name] f1 a1
      by (auto simp: run s'_def menu_acts_def)
  qed
qed

text \<open>
  The theorem at a session in context \<open>shot_010\<close>: a previous context
  \<open>shot_020\<close> is changed to; the previous context \<open>shot_010\<close> leaves the
  session as it is.
\<close>

theorem refresh_engine_new_file_witness:
  "refresh_engine unknown_path_toolkit ''tk-clarisse'' ''shot_020'' ''Shotgun''
      (example_session True []) =
     (None,
      (example_session True [])
        \<lparr>current_engine := Some (example_engine\<lparr>engine_context := ''shot_020''\<rparr>),
         actions := [ChangeContext ''shot_020'']\<rparr>) \<and>
   refresh_engine unknown_path_toolkit ''tk-clarisse'' ''shot_010'' ''Shotgun''
      (example_session True []) = (None, example_session True [])"
  using refresh_engine_new_file
      [where s = "example_session True []" and eng = example_engine
         and tk = unknown_path_toolkit and engine_name = "''tk-clarisse''"
         and prev_context = "''shot_020''" and menu_name = "''Shotgun''"]
    refresh_engine_new_file
      [where s = "example_session True []" and eng = example_engine
         and tk = unknown_path_toolkit and engine_name = "''tk-clarisse''"
         and prev_context = "''shot_010''" and menu_name = "''Shotgun''"]
  by (simp add: example_session_def example_engine_def)



text \<open>
  Claim C7 as stated fails in batch mode: the engine exists, the path resolves to the
  engine's own context, and afterwards the main menu is empty and the menu generator has
  not run, so no menu was ensured.
\<close>

theorem refresh_engine_same_context_batch_counterexample:
  "current_engine (example_session False ''/jobs/a.project'') = Some example_engine \<and>
   fst (resolve_from_path known_path_toolkit ''shot_010'' ''/jobs/a.project''
          (example_session False ''/jobs/a.project''))
     = Inr (engine_context example_engine) \<and>
   main_menu (snd (refresh_engine known_path_toolkit ''tk-clarisse'' ''shot_010'' ''Shotgun''
      (example_session False ''/jobs/a.project''))) = [] \<and>
   actions (snd (refresh_engine known_path_toolkit ''tk-clarisse'' ''shot_010'' ''Shotgun''
      (example_session False ''/jobs/a.project'')))
     = [TankFromPath ''/jobs/a.project'', ContextFromPath ''/jobs/a.project'' ''shot_010'']"
  by (simp add: refresh_engine_def resolve_from_path_def refresh_resolved_def
      remove_sgtk_disabled_menu_def clear_sgtk_menu_def create_shotgun_menu_def
      known_path_toolkit_def example_session_def example_engine_def Let_def)

text \<open>
  The amended claim at the example session with a user interface.
\<close>

theorem refresh_engine_same_context_witness:
  "engine_menu_name example_engine @ ''>'' \<in>
     set (main_menu (snd (refresh_engine known_path_toolkit ''tk-clarisse'' ''shot_010''
        ''Shotgun'' (example_session True ''/jobs/a.project'')))) \<and>
   current_engine (snd (refresh_engine known_path_toolkit ''tk-clarisse'' ''shot_010''
        ''Shotgun'' (example_session True ''/jobs/a.project''))) = Some example_engine"
proof -
  have p: "fst (resolve_from_path known_path_toolkit ''shot_010''
          (abspath known_path_toolkit (current_project_filename (example_session True ''/jobs/a.project'')))
          (example_session True ''/jobs/a.project''))
       = Inr (engine_context example_engine)"
    by (simp add: resolve_from_path_def known_path_toolkit_def example_engine_def)
  have e: "current_engine (example_session True ''/jobs/a.project'') = Some example_engine"
      "current_project_filename (example_session True ''/jobs/a.project'') \<noteq> []"
    by (simp_all add: example_session_def)
  show ?thesis
    using refresh_engine_same_context [OF e(1) e(2) disjI1 [OF p],
        where engine_name = "''tk-clarisse''" and menu_name = "''Shotgun''"]
    by (simp add: example_session_def)
qed

section \<open>Properties of the event pump and of the startup commands\<close>

lemma process_events_rearms:
  assumes "heap p self = Some obj" "app obj = Some a" "\<not> closingDown p a"
  shows "event_loop_single (process_events self p) = event_loop_single p @ [self]"
    and "cls_helper (process_events self p) = cls_helper p"
    and "heap (process_events self p) = heap p"
  using assms by (simp_all add: process_events_def Let_def)

lemma process_events_closing:
  assumes "heap p self = Some obj" "app obj = Some a" "closingDown p a"
  shows "event_loop_single (process_events self p) = event_loop_single p"
    and "cls_helper (process_events self p) = cls_helper p"
    and "heap (process_events self p) self = Some (obj\<lparr>own_helper := Some None\<rparr>)"
  using assms by (simp_all add: process_events_def Let_def)

text \<open>
  Claim C8.  A pump started by \<open>exec_\<close> under an application that reports it is
  closing down: after the idle tick that runs \<open>process_events\<close> nothing is queued
  any more and the helper object has an attribute \<open>_helper\<close> of its own, set to
  \<open>None\<close>, but the class attribute still refers to the helper.  A later
  \<open>exec_\<close> therefore finds a helper, builds none and queues nothing.
\<close>

theorem process_events_keeps_class_helper:
  "cls_helper (idle_tick (helper_exec 0 (Some 7) (unstarted_pump shutting_down False))) = Some 0 \<and>
   event_loop_single (idle_tick (helper_exec 0 (Some 7) (unstarted_pump shutting_down False))) = [] \<and>
   heap (idle_tick (helper_exec 0 (Some 7) (unstarted_pump shutting_down False))) 0
     = Some \<lparr>app = Some 7, own_helper = Some None\<rparr> \<and>
   helper_exec 1 (Some 7) (idle_tick (helper_exec 0 (Some 7) (unstarted_pump shutting_down False)))
     = idle_tick (helper_exec 0 (Some 7) (unstarted_pump shutting_down False))"
  by (simp add: idle_tick_def helper_exec_def process_events_def unstarted_pump_def
      shutting_down_def Let_def)

lemma app_instance_commands_example:
  "app_instance_commands example_commands =
     [(''A'', [(''cmd1'', 1), (''cmd2'', 2)]), (''B'', [(''cmd3'', 3)])]"
  by (simp add: app_instance_commands_def example_commands_def add_command_def Let_def)

lemma clarisse_unbound: "''clarisse'' \<notin> set engine_module_globals"
  by (simp add: engine_module_globals_def)

lemma executeDeferred_raises: "executeDeferred f s = (Some (NameError ''clarisse''), s)"
  by (simp add: executeDeferred_def clarisse_unbound)

text \<open>
  Claim C9.  With the commands \<open>cmd1\<close>, \<open>cmd2\<close> of \<open>A\<close> and
  \<open>cmd3\<close> of \<open>B\<close> and the setting \<open>[(A, ""), (B, "cmd3")]\<close>, the
  first dispatch raises \<open>NameError\<close>: the debug line of \<open>cmd1\<close> is logged,
  nothing is deferred, and the other commands are never reached.
\<close>

theorem run_app_instance_commands_name_error:
  "run_app_instance_commands example_commands [(''A'', []), (''B'', ''cmd3'')] no_startup =
     (Some (NameError ''clarisse''),
      \<lparr>deferred = [], startup_log = [Debug_running ''A'' ''cmd1'']\<rparr>)"
  by (simp add: run_app_instance_commands_def app_instance_commands_example run_setting_def
      executeDeferred_raises no_startup_def Let_def)

lemma run_setting_unknown_app:
  "map_of d inst = None \<Longrightarrow>
   run_setting d (inst, name) s =
     (None, s\<lparr>startup_log := startup_log s @ [Warning_app_not_installed inst]\<rparr>)"
  by (simp add: run_setting_def)

lemma run_setting_unknown_command:
  "map_of d inst = Some cd \<Longrightarrow> name \<noteq> [] \<Longrightarrow> map_of cd name = None \<Longrightarrow>
   run_setting d (inst, name) s =
     (None, s\<lparr>startup_log := startup_log s @ [Warning_unknown_command inst name (map fst cd)]\<rparr>)"
  by (simp add: run_setting_def)

end
